theory Spec2Isabelle
  imports Main "HOL-Library.Sublist"
begin

section \<open>Python strings\<close>

text \<open>
  A Python \<open>str\<close> is modelled as a \<open>string\<close>, one \<open>char\<close> per code point. The
  model covers ASCII text: \<open>str.upper\<close>, \<open>str.lower\<close> and \<open>repr\<close> are written out
  for code points below 128 only.
\<close>

definition startswith :: "string \<Rightarrow> string \<Rightarrow> bool" where
  "startswith s p = (take (length p) s = p)"

definition endswith :: "string \<Rightarrow> string \<Rightarrow> bool" where
  "endswith s p = (length p \<le> length s \<and> drop (length s - length p) s = p)"

definition lower_char :: "char \<Rightarrow> char" where
  "lower_char c =
     (if (65::nat) \<le> of_char c \<and> (of_char c :: nat) \<le> 90
      then char_of (of_char c + (32::nat)) else c)"

definition upper_char :: "char \<Rightarrow> char" where
  "upper_char c =
     (if (97::nat) \<le> of_char c \<and> (of_char c :: nat) \<le> 122
      then char_of (of_char c - (32::nat)) else c)"

definition lower :: "string \<Rightarrow> string" where
  "lower s = map lower_char s"

definition upper :: "string \<Rightarrow> string" where
  "upper s = map upper_char s"


text \<open>\<open>sep.join(xs)\<close>.\<close>

fun join :: "string \<Rightarrow> string list \<Rightarrow> string" where
  "join sep [] = []"
| "join sep [x] = x"
| "join sep (x # y # ys) = x @ sep @ join sep (y # ys)"

text \<open>
  \<open>s.split(c)\<close> for a one-character separator: the pieces between the occurrences
  of \<open>c\<close>, of which there is always at least one (\<open>''.split('/') == ['']\<close>).
\<close>

fun str_split :: "char \<Rightarrow> string \<Rightarrow> string list" where
  "str_split c [] = [[]]"
| "str_split c (x # xs) =
     (if x = c then [] # str_split c xs
      else (case str_split c xs of
              [] \<Rightarrow> [[x]]
            | p # ps \<Rightarrow> (x # p) # ps))"

text \<open>Decimal digits of a natural number, and \<open>str(i)\<close> for an integer.\<close>

definition digit_char :: "nat \<Rightarrow> char" where
  "digit_char d = char_of (48 + d)"

function str_nat :: "nat \<Rightarrow> string" where
  "str_nat n = (if n < 10 then [digit_char n] else str_nat (n div 10) @ [digit_char (n mod 10)])"
  by pat_completeness auto
termination
  by (relation "measure (\<lambda>n. n)") auto

declare str_nat.simps [simp del]

definition str_int :: "int \<Rightarrow> string" where
  "str_int i = (if i < 0 then CHR ''-'' # str_nat (nat (- i)) else str_nat (nat i))"

definition hex_char :: "nat \<Rightarrow> char" where
  "hex_char d = (if d < 10 then char_of (48 + d) else char_of (87 + d))"

section \<open>Values\<close>

text \<open>
  \<open>isshub_sync.connection.constants.DataModes\<close>, an \<open>IntEnum\<close> whose members get
  the values 1 and 2 from \<open>auto()\<close>.
\<close>

datatype DataModes = JSON | FORM

text \<open>
  The Python values that travel through the connection as arguments: \<open>None\<close>,
  booleans, integers, strings, lists, dictionaries with string keys (in insertion
  order) and the members of \<open>DataModes\<close>.
\<close>

datatype pyval =
    PNone
  | PBool bool
  | PInt int
  | PStr string
  | PList "pyval list"
  | PDict "(string \<times> pyval) list"
  | PMode DataModes

text \<open>
  \<open>isshub_sync.utils.NotProvided\<close>: the default of a parameter that was not
  passed, as opposed to an explicit \<open>None\<close>.
\<close>

datatype 'a provided = NotProvided | Provided 'a


text \<open>
  \<open>repr\<close> of a string: single quotes unless the text has a single quote and no
  double quote; the quote and the backslash are escaped, tab, newline and return
  get their letter, other control characters are written \<open>\xhh\<close>.
\<close>

definition repr_quote :: "string \<Rightarrow> char" where
  "repr_quote s = (if CHR 0x27 \<in> set s \<and> CHR 0x22 \<notin> set s then CHR 0x22 else CHR 0x27)"

definition repr_char :: "char \<Rightarrow> char \<Rightarrow> string" where
  "repr_char q c =
     (if c = q \<or> c = CHR 0x5C then [CHR 0x5C, c]
      else if c = CHR 0x09 then [CHR 0x5C, CHR ''t'']
      else if c = CHR 0x0A then [CHR 0x5C, CHR ''n'']
      else if c = CHR 0x0D then [CHR 0x5C, CHR ''r'']
      else if (of_char c :: nat) < 32 \<or> (of_char c :: nat) = 127
        then [CHR 0x5C, CHR ''x'', hex_char (of_char c div 16), hex_char (of_char c mod 16)]
      else [c])"

definition repr_str :: "string \<Rightarrow> string" where
  "repr_str s = [repr_quote s] @ concat (map (repr_char (repr_quote s)) s) @ [repr_quote s]"

fun py_repr :: "pyval \<Rightarrow> string"
  and py_repr_list :: "pyval list \<Rightarrow> string list"
  and py_repr_items :: "(string \<times> pyval) list \<Rightarrow> string list" where
  "py_repr PNone = ''None''"
| "py_repr (PBool b) = (if b then ''True'' else ''False'')"
| "py_repr (PInt i) = str_int i"
| "py_repr (PStr s) = repr_str s"
| "py_repr (PList xs) = ''['' @ join '', '' (py_repr_list xs) @ '']''"
| "py_repr (PDict kvs) = ''{'' @ join '', '' (py_repr_items kvs) @ ''}''"
| "py_repr (PMode JSON) = ''<DataModes.JSON: 1>''"
| "py_repr (PMode FORM) = ''<DataModes.FORM: 2>''"
| "py_repr_list [] = []"
| "py_repr_list (x # xs) = py_repr x # py_repr_list xs"
| "py_repr_items [] = []"
| "py_repr_items ((k, v) # kvs) = (repr_str k @ '': '' @ py_repr v) # py_repr_items kvs"

text \<open>\<open>str(x)\<close>: the text itself for a string, the \<open>repr\<close> for the containers.\<close>

fun py_str :: "pyval \<Rightarrow> string" where
  "py_str (PStr s) = s"
| "py_str (PMode JSON) = ''DataModes.JSON''"
| "py_str (PMode FORM) = ''DataModes.FORM''"
| "py_str v = py_repr v"

section \<open>JSON text\<close>

text \<open>
  \<open>json.dumps(x)\<close> with the default options: \<open>ensure_ascii\<close>, the separators
  \<open>', '\<close> and \<open>': '\<close>. A string is written between double quotes; the double
  quote, the backslash and the control characters with a short form are escaped
  with a backslash, every other character outside the range from the space to the
  tilde is written \<open>\u00hh\<close>. A member of \<open>DataModes\<close> is written as its integer.
\<close>

definition json_char :: "char \<Rightarrow> string" where
  "json_char c =
     (if c = CHR 0x5C then [CHR 0x5C, CHR 0x5C]
      else if c = CHR 0x22 then [CHR 0x5C, CHR 0x22]
      else if c = CHR 0x08 then [CHR 0x5C, CHR ''b'']
      else if c = CHR 0x0C then [CHR 0x5C, CHR ''f'']
      else if c = CHR 0x0A then [CHR 0x5C, CHR ''n'']
      else if c = CHR 0x0D then [CHR 0x5C, CHR ''r'']
      else if c = CHR 0x09 then [CHR 0x5C, CHR ''t'']
      else if (of_char c :: nat) < 32 \<or> (126::nat) < of_char c
        then [CHR 0x5C, CHR ''u'', CHR ''0'', CHR ''0'',
              hex_char (of_char c div 16), hex_char (of_char c mod 16)]
      else [c])"

definition json_string :: "string \<Rightarrow> string" where
  "json_string s = [CHR 0x22] @ concat (map json_char s) @ [CHR 0x22]"

fun json_dumps :: "pyval \<Rightarrow> string"
  and json_elements :: "pyval list \<Rightarrow> string list"
  and json_members :: "(string \<times> pyval) list \<Rightarrow> string list" where
  "json_dumps PNone = ''null''"
| "json_dumps (PBool b) = (if b then ''true'' else ''false'')"
| "json_dumps (PInt i) = str_int i"
| "json_dumps (PStr s) = json_string s"
| "json_dumps (PList xs) = ''['' @ join '', '' (json_elements xs) @ '']''"
| "json_dumps (PDict kvs) = ''{'' @ join '', '' (json_members kvs) @ ''}''"
| "json_dumps (PMode JSON) = ''1''"
| "json_dumps (PMode FORM) = ''2''"
| "json_elements [] = []"
| "json_elements (x # xs) = json_dumps x # json_elements xs"
| "json_members [] = []"
| "json_members ((k, v) # kvs) = (json_string k @ '': '' @ json_dumps v) # json_members kvs"

section \<open>The connection\<close>

datatype error = AssertionError | ValueError | TypeError | AttributeError

type_synonym Url = string

type_synonym kwargs = "(string \<times> pyval) list"

text \<open>
  The client is outside the program. It is modelled by what \<open>request\<close> asks of it:
  \<open>getattr(client, name)\<close> is either missing or a method taking the URL and the
  keyword arguments and returning the response.
\<close>

type_synonym 'r ConnectionClient = "string \<Rightarrow> (Url \<Rightarrow> kwargs \<Rightarrow> 'r) option"

text \<open>
  A \<open>Connection\<close>: its two slots, and the two class attributes, which a subclass
  may override.
\<close>

record 'r Connection =
  PATH_SUFFIX :: string
  DEFAULT_CLIENT_CLASS :: "unit \<Rightarrow> 'r ConnectionClient"
  client :: "'r ConnectionClient option"
  root :: Url

text \<open>The steps of \<open>Connection.request\<close> on the path, in the order of the source.\<close>

definition request_prefix :: "string \<Rightarrow> string" where
  "request_prefix path = (if \<not> startswith path ''/'' then ''/'' @ path else path)"

definition request_suffix :: "'r Connection \<Rightarrow> pyval provided \<Rightarrow> string" where
  "request_suffix self path_suffix =
     (case path_suffix of NotProvided \<Rightarrow> PATH_SUFFIX self | Provided v \<Rightarrow> py_str v)"

definition request_path :: "'r Connection \<Rightarrow> string \<Rightarrow> pyval provided \<Rightarrow> string" where
  "request_path self path path_suffix =
     (let path1 = request_prefix path;
          sfx = request_suffix self path_suffix
      in if sfx \<noteq> [] \<and> \<not> endswith path1 sfx then path1 @ sfx else path1)"

definition request_url :: "'r Connection \<Rightarrow> string \<Rightarrow> pyval provided \<Rightarrow> Url" where
  "request_url self path path_suffix = root self @ request_path self path path_suffix"

text \<open>The keyword arguments \<open>request\<close> assembles for the client.\<close>

definition request_kwargs :: "pyval provided \<Rightarrow> pyval \<Rightarrow> pyval provided \<Rightarrow> kwargs" where
  "request_kwargs data data_mode headers =
     (case data of
        NotProvided \<Rightarrow> []
      | Provided d \<Rightarrow>
          (if data_mode = PMode JSON then [(''data'', PStr (json_dumps d))]
           else [(''data'', d)]))
     @ (case headers of NotProvided \<Rightarrow> [] | Provided h \<Rightarrow> [(''headers'', h)])"

text \<open>
  \<open>Connection.request\<close>. It returns the connection, whose client it may have
  created, and either the error raised or the client's response. A path that is
  not a string has no \<open>startswith\<close>, which raises after the client was created.
\<close>

definition ensure_client :: "'r Connection \<Rightarrow> 'r Connection" where
  "ensure_client self =
     (if client self = None then self\<lparr>client := Some (DEFAULT_CLIENT_CLASS self ())\<rparr> else self)"

definition Connection_request ::
  "'r Connection \<Rightarrow> string \<Rightarrow> pyval \<Rightarrow> pyval provided \<Rightarrow> pyval \<Rightarrow> pyval provided
     \<Rightarrow> pyval provided \<Rightarrow> 'r Connection \<times> (error + 'r)" where
  "Connection_request self method path data data_mode headers path_suffix =
     (let method1 = lower method;
          self1 = ensure_client self
      in case path of
           PStr p \<Rightarrow>
             (let url = request_url self1 p path_suffix;
                  kwargs = request_kwargs data data_mode headers
              in case client self1 of
                   None \<Rightarrow> (self1, Inl AttributeError)
                 | Some c \<Rightarrow>
                     (case c method1 of
                        None \<Rightarrow> (self1, Inl AttributeError)
                      | Some f \<Rightarrow> (self1, Inr (f url kwargs))))
         | _ \<Rightarrow> (self1, Inl AttributeError))"

text \<open>
  A client that answers every lower-case method of the connection with the call
  it received: the method name, the URL and the keyword arguments.
\<close>

definition recording_client :: "(string \<times> Url \<times> kwargs) ConnectionClient" where
  "recording_client name =
     (if name \<in> set [''head'', ''get'', ''delete'', ''options'', ''patch'', ''post'', ''put'']
      then Some (\<lambda>url kw. (name, url, kw)) else None)"

section \<open>Path accumulators and ready requests\<close>

text \<open>
  \<open>aiohttp.hdrs.METH_ALL\<close> is a constant of the HTTP library, written out
  here; \<open>HTTP_METHODS\<close> is computed from it as in \<open>constants.py\<close>.
\<close>

definition METH_ALL :: "string list" where
  "METH_ALL = [''CONNECT'', ''HEAD'', ''GET'', ''DELETE'', ''OPTIONS'', ''PATCH'', ''POST'',
               ''PUT'', ''TRACE'']"

definition HTTP_METHODS :: "string set" where
  "HTTP_METHODS = set METH_ALL - {''CONNECT'', ''TRACE''}"

text \<open>
  \<open>Callable\<close> and \<open>Executable\<close> keep a reference to their connection and never
  look inside it while the path is built, so the connection is a type parameter.
  The slot \<open>method\<close> of an \<open>Executable\<close> is the field \<open>http_method\<close>.
\<close>

record 'c Callable =
  connection :: 'c
  parts :: "string list"

record 'c Executable =
  connection :: 'c
  http_method :: string
  path :: "string option"

datatype 'c chained = IsCallable "'c Callable" | IsExecutable "'c Executable"

text \<open>\<open>Callable.__init__\<close>: \<open>sum([str(part).split('/') for part in parts], [])\<close>.\<close>

definition Callable_init :: "'c \<Rightarrow> pyval list \<Rightarrow> 'c Callable" where
  "Callable_init conn ps =
     \<lparr>Callable.connection = conn,
      parts = concat (map (\<lambda>part. str_split CHR ''/'' (py_str part)) ps)\<rparr>"

text \<open>The property \<open>Callable.path\<close>.\<close>

definition Callable_path :: "'c Callable \<Rightarrow> string" where
  "Callable_path self = ''/'' @ join ''/'' (parts self)"

text \<open>\<open>Callable.__call__\<close>, on values.\<close>

definition Callable_call :: "'c Callable \<Rightarrow> pyval list \<Rightarrow> 'c Callable" where
  "Callable_call self args =
     (if args \<noteq> []
      then Callable_init (Callable.connection self) (map PStr (parts self) @ args)
      else self)"

text \<open>\<open>Callable.__getattr__\<close>.\<close>

definition Callable_getattr :: "'c Callable \<Rightarrow> string \<Rightarrow> 'c chained" where
  "Callable_getattr self attr =
     (if upper attr \<in> HTTP_METHODS
      then IsExecutable \<lparr>Executable.connection = Callable.connection self,
                         http_method = upper attr, path = Some (Callable_path self)\<rparr>
      else IsCallable (Callable_init (Callable.connection self)
                         (map PStr (parts self) @ [PStr attr])))"

text \<open>\<open>Connection.__getattr__\<close> and \<open>Connection.__call__\<close>.\<close>

definition Connection_getattr :: "'c \<Rightarrow> string \<Rightarrow> 'c chained" where
  "Connection_getattr self attr =
     (if upper attr \<in> HTTP_METHODS
      then IsExecutable \<lparr>Executable.connection = self, http_method = upper attr, path = None\<rparr>
      else IsCallable (Callable_init self [PStr attr]))"

definition Connection_call :: "'c \<Rightarrow> pyval list \<Rightarrow> 'c Callable" where
  "Connection_call self args = Callable_init self args"

text \<open>
  The accumulators that a connection hands out: built by the constructor, by an
  attribute or a call on the connection, or by an attribute or a call on an
  accumulator already handed out.
\<close>

inductive produced :: "'c \<Rightarrow> 'c Callable \<Rightarrow> bool" for conn :: 'c where
  by_init: "produced conn (Callable_init conn ps)"
| by_connection_attr: "Connection_getattr conn attr = IsCallable c \<Longrightarrow> produced conn c"
| by_connection_call: "produced conn (Connection_call conn args)"
| by_attr: "produced conn c \<Longrightarrow> Callable_getattr c attr = IsCallable c' \<Longrightarrow> produced conn c'"
| by_call: "produced conn c \<Longrightarrow> produced conn (Callable_call c args)"

subsection \<open>Object identity\<close>

text \<open>
  Whether \<open>Callable.__call__\<close> returns the object it was called on or a new one
  is a question about references. The store is the list of the accumulators
  allocated so far, a reference is an index into it, and the constructor
  allocates at the end.
\<close>

type_synonym 'c store = "'c Callable list"

definition lookup :: "'c store \<Rightarrow> nat \<Rightarrow> 'c Callable option" where
  "lookup h r = (if r < length h then Some (h ! r) else None)"

definition alloc :: "'c store \<Rightarrow> 'c Callable \<Rightarrow> nat \<times> 'c store" where
  "alloc h obj = (length h, h @ [obj])"

text \<open>
  \<open>Callable.__call__\<close> on references:
  \<open>Callable(self.connection, *self.parts, *args) if args else self\<close>. The result
  is \<open>None\<close> for a reference that is not in the store.
\<close>

definition Callable_call_ref :: "'c store \<Rightarrow> nat \<Rightarrow> pyval list \<Rightarrow> (nat \<times> 'c store) option" where
  "Callable_call_ref h self args =
     (case lookup h self of
        None \<Rightarrow> None
      | Some obj \<Rightarrow>
          Some (if args \<noteq> []
                then alloc h (Callable_init (Callable.connection obj) (map PStr (parts obj) @ args))
                else (self, h)))"

section \<open>Executing a request\<close>

text \<open>
  The call \<open>self.connection.request(self.method, path, *args, **kwargs)\<close> binds
  its arguments as Python does for the signature
  \<open>request(self, method, path, data, data_mode, headers, path_suffix)\<close>: the
  positional arguments fill the parameters after \<open>path\<close> in order, a keyword
  must name a parameter that is still free, and anything else is a \<open>TypeError\<close>
  raised before the body runs. A parameter that gets no argument keeps its default.
\<close>

definition request_params :: "string list" where
  "request_params = [''data'', ''data_mode'', ''headers'', ''path_suffix'']"

definition given :: "kwargs \<Rightarrow> string \<Rightarrow> pyval provided" where
  "given bound name = (case map_of bound name of None \<Rightarrow> NotProvided | Some v \<Rightarrow> Provided v)"

definition call_request ::
  "'r Connection \<Rightarrow> string \<Rightarrow> pyval \<Rightarrow> pyval list \<Rightarrow> kwargs
     \<Rightarrow> 'r Connection \<times> (error + 'r)" where
  "call_request conn meth p args kw =
     (if length request_params < length args then (conn, Inl TypeError)
      else if \<exists>k \<in> set (map fst kw). k \<notin> set (drop (length args) request_params)
        then (conn, Inl TypeError)
      else
        (let bound = zip request_params args @ kw
         in Connection_request conn meth p
              (given bound ''data'')
              (case map_of bound ''data_mode'' of None \<Rightarrow> PMode FORM | Some v \<Rightarrow> v)
              (given bound ''headers'')
              (given bound ''path_suffix'')))"




section \<open>The root URL\<close>

text \<open>
  \<open>urllib.parse\<close> is the standard library's and not part of the package. It
  is written out here as of CPython 3.6 and 3.7, the first interpreters that run
  the source (variable annotations, \<open>enum.auto\<close>): \<open>urlsplit\<close> with its short
  cut for \<open>http\<close> and its check that what follows the colon is not a port
  number, \<open>urlparse\<close>, \<open>urlunsplit\<close> and \<open>urlunparse\<close>. \<open>str.find\<close> and
  \<open>str.rfind\<close> return \<open>None\<close> where Python returns -1.
\<close>

definition str_find :: "char \<Rightarrow> string \<Rightarrow> nat option" where
  "str_find c s = (if c \<in> set s then Some (length (takeWhile (\<lambda>x. x \<noteq> c) s)) else None)"

definition str_find_from :: "char \<Rightarrow> string \<Rightarrow> nat \<Rightarrow> nat option" where
  "str_find_from c s start = map_option (\<lambda>k. start + k) (str_find c (drop start s))"

definition str_rfind :: "char \<Rightarrow> string \<Rightarrow> nat option" where
  "str_rfind c s =
     (if c \<in> set s then Some (length s - 1 - length (takeWhile (\<lambda>x. x \<noteq> c) (rev s))) else None)"

text \<open>\<open>s.split(c, 1)\<close> for a string that contains \<open>c\<close>.\<close>

definition split1 :: "char \<Rightarrow> string \<Rightarrow> string \<times> string" where
  "split1 c s = (takeWhile (\<lambda>x. x \<noteq> c) s, drop 1 (dropWhile (\<lambda>x. x \<noteq> c) s))"

definition uses_netloc :: "string list" where
  "uses_netloc = [[], ''ftp'', ''http'', ''gopher'', ''nntp'', ''telnet'',
                  ''imap'', ''wais'', ''file'', ''mms'', ''https'', ''shttp'',
                  ''snews'', ''prospero'', ''rtsp'', ''rtspu'', ''rsync'',
                  ''svn'', ''svn+ssh'', ''sftp'', ''nfs'', ''git'', ''git+ssh'',
                  ''ws'', ''wss'']"

definition uses_params :: "string list" where
  "uses_params = [[], ''ftp'', ''hdl'', ''prospero'', ''http'', ''imap'',
                  ''https'', ''shttp'', ''rtsp'', ''rtspu'', ''sip'',
                  ''sips'', ''mms'', ''sftp'', ''tel'']"

definition scheme_chars :: string where
  "scheme_chars = ''abcdefghijklmnopqrstuvwxyz'' @ ''ABCDEFGHIJKLMNOPQRSTUVWXYZ''
                  @ ''0123456789'' @ ''+-.''"

record SplitResult =
  sr_scheme :: string
  sr_netloc :: string
  sr_path :: string
  sr_query :: string
  sr_fragment :: string

record ParseResult =
  scheme :: string
  netloc :: string
  url_path :: string
  params :: string
  query :: string
  fragment :: string

text \<open>\<open>_splitnetloc(url, start)\<close>.\<close>

definition splitnetloc :: "string \<Rightarrow> nat \<Rightarrow> string \<times> string" where
  "splitnetloc url start =
     (let delim = fold (\<lambda>c delim. case str_find_from c url start of
                                     Some wdelim \<Rightarrow> min delim wdelim
                                   | None \<Rightarrow> delim)
                       ''/?#'' (length url)
      in (drop start (take delim url), drop delim url))"

text \<open>
  The part of \<open>urlsplit\<close> that follows the scheme, which the source has twice:
  network location, then fragment, then query.
\<close>

definition urlsplit_rest :: "string \<Rightarrow> string \<Rightarrow> error + SplitResult" where
  "urlsplit_rest sch url =
     (let (nl, url1) = (if take 2 url = ''//'' then splitnetloc url 2 else ([], url))
      in if take 2 url = ''//'' \<and>
            ((CHR ''['' \<in> set nl \<and> CHR '']'' \<notin> set nl) \<or>
             (CHR '']'' \<in> set nl \<and> CHR ''['' \<notin> set nl))
         then Inl ValueError
         else
           (let (url2, frag) = (if CHR ''#'' \<in> set url1 then split1 CHR ''#'' url1 else (url1, []));
                (url3, qry) = (if CHR ''?'' \<in> set url2 then split1 CHR ''?'' url2 else (url2, []))
            in Inr \<lparr>sr_scheme = sch, sr_netloc = nl, sr_path = url3,
                    sr_query = qry, sr_fragment = frag\<rparr>))"

text \<open>
  \<open>urlsplit(url)\<close> with the default empty scheme. The result cache of the source
  does not change what is returned.
\<close>

definition urlsplit :: "string \<Rightarrow> error + SplitResult" where
  "urlsplit url =
     (case str_find CHR '':'' url of
        Some i \<Rightarrow>
          (if 0 < i then
             (if take i url = ''http'' then urlsplit_rest (lower (take i url)) (drop (i + 1) url)
              else if \<forall>c \<in> set (take i url). c \<in> set scheme_chars then
                (let rest = drop (i + 1) url
                 in if rest = [] \<or> (\<exists>c \<in> set rest. c \<notin> set ''0123456789'')
                    then urlsplit_rest (lower (take i url)) rest
                    else urlsplit_rest [] url)
              else urlsplit_rest [] url)
           else urlsplit_rest [] url)
      | None \<Rightarrow> urlsplit_rest [] url)"

text \<open>
  \<open>_splitparams(url)\<close>. In the branch without a slash the source slices with the
  index that \<open>find\<close> returned, so a missing semicolon would cut with -1.
\<close>

definition splitparams :: "string \<Rightarrow> string \<times> string" where
  "splitparams url =
     (if CHR ''/'' \<in> set url then
        (case str_find_from CHR '';'' url (case str_rfind CHR ''/'' url of Some j \<Rightarrow> j | None \<Rightarrow> 0) of
           None \<Rightarrow> (url, [])
         | Some i \<Rightarrow> (take i url, drop (i + 1) url))
      else
        (case str_find CHR '';'' url of
           None \<Rightarrow> (butlast url, url)
         | Some i \<Rightarrow> (take i url, drop (i + 1) url)))"

definition urlparse :: "string \<Rightarrow> error + ParseResult" where
  "urlparse url =
     (case urlsplit url of
        Inl e \<Rightarrow> Inl e
      | Inr r \<Rightarrow>
          (let (url1, prm) =
                 (if sr_scheme r \<in> set uses_params \<and> CHR '';'' \<in> set (sr_path r)
                  then splitparams (sr_path r) else (sr_path r, []))
           in Inr \<lparr>scheme = sr_scheme r, netloc = sr_netloc r, url_path = url1,
                   params = prm, query = sr_query r, fragment = sr_fragment r\<rparr>))"

definition urlunsplit :: "string \<Rightarrow> string \<Rightarrow> string \<Rightarrow> string \<Rightarrow> string \<Rightarrow> string" where
  "urlunsplit sch nl url qry frag =
     (let url1 = (if nl \<noteq> [] \<or> (sch \<noteq> [] \<and> sch \<in> set uses_netloc \<and> take 2 url \<noteq> ''//'')
                  then ''//'' @ nl @ (if url \<noteq> [] \<and> take 1 url \<noteq> ''/'' then ''/'' @ url else url)
                  else url);
          url2 = (if sch \<noteq> [] then sch @ '':'' @ url1 else url1);
          url3 = (if qry \<noteq> [] then url2 @ ''?'' @ qry else url2)
      in if frag \<noteq> [] then url3 @ ''#'' @ frag else url3)"

definition urlunparse :: "string \<Rightarrow> string \<Rightarrow> string \<Rightarrow> string \<Rightarrow> string \<Rightarrow> string \<Rightarrow> string" where
  "urlunparse sch nl url prm qry frag =
     urlunsplit sch nl (if prm \<noteq> [] then url @ '';'' @ prm else url) qry frag"

text \<open>\<open>Connection._validate_root\<close>.\<close>

definition validate_root :: "Url \<Rightarrow> error + Url" where
  "validate_root r =
     (case urlparse r of
        Inl e \<Rightarrow> Inl e
      | Inr parsed \<Rightarrow>
          (if scheme parsed \<notin> {''http'', ''https''} then Inl AssertionError
           else
             (let path0 = url_path parsed;
                  path1 = (if endswith path0 ''/'' then butlast path0 else path0)
              in Inr (urlunparse (scheme parsed) (netloc parsed) path1 [] [] []))))"


text \<open>
  \<open>Connection.__init__\<close>, for the class \<open>Connection\<close> itself (suffix \<open>/\<close>) and
  for a subclass that sets its own \<open>PATH_SUFFIX\<close>.
\<close>

definition Connection_subclass_init ::
  "string \<Rightarrow> (unit \<Rightarrow> 'r ConnectionClient) \<Rightarrow> Url \<Rightarrow> 'r ConnectionClient option
     \<Rightarrow> error + 'r Connection" where
  "Connection_subclass_init sfx client_class r c =
     (case validate_root r of
        Inl e \<Rightarrow> Inl e
      | Inr v \<Rightarrow> Inr \<lparr>PATH_SUFFIX = sfx, DEFAULT_CLIENT_CLASS = client_class,
                      client = c, root = v\<rparr>)"

definition Connection_init ::
  "(unit \<Rightarrow> 'r ConnectionClient) \<Rightarrow> Url \<Rightarrow> 'r ConnectionClient option \<Rightarrow> error + 'r Connection" where
  "Connection_init = Connection_subclass_init ''/''"

section \<open>Notions used to state the properties\<close>

text \<open>
  The value of a decimal numeral with an optional minus sign, read independently
  of \<open>str_int\<close>; \<open>None\<close> for any other text.
\<close>

definition is_digit :: "char \<Rightarrow> bool" where
  "is_digit c = ((48::nat) \<le> of_char c \<and> (of_char c :: nat) \<le> 57)"

definition digits_value :: "string \<Rightarrow> nat" where
  "digits_value s = foldl (\<lambda>a c. 10 * a + (of_char c - 48)) 0 s"

definition decimal_value :: "string \<Rightarrow> int option" where
  "decimal_value s =
     (case s of
        [] \<Rightarrow> None
      | c # ds \<Rightarrow>
          (if c = CHR ''-'' then
             (if ds \<noteq> [] \<and> list_all is_digit ds then Some (- int (digits_value ds)) else None)
           else if list_all is_digit s then Some (int (digits_value s)) else None))"

text \<open>
  The path as the specification writes it: a slash before every segment, and a
  single slash when there is no segment.
\<close>

definition slash_each :: "string list \<Rightarrow> string" where
  "slash_each segs = (if segs = [] then ''/'' else concat (map (\<lambda>s. CHR ''/'' # s) segs))"

text \<open>The segments an argument list contributes, as the constructor splits them.\<close>

definition segments_of :: "pyval list \<Rightarrow> string list" where
  "segments_of args = concat (map (\<lambda>a. str_split CHR ''/'' (py_str a)) args)"

text \<open>
  A text whose splitting on the slash leaves an empty piece: it is empty, it
  starts or ends with a slash, or it has two slashes in a row.
\<close>

definition stray_slash :: "string \<Rightarrow> bool" where
  "stray_slash s = (s = [] \<or> startswith s ''/'' \<or> endswith s ''/'' \<or> sublist ''//'' s)"

text \<open>The text after the last slash of a path.\<close>

definition last_segment :: "string \<Rightarrow> string" where
  "last_segment p = last (str_split CHR ''/'' p)"

text \<open>An optional part of a URL with its delimiter.\<close>

definition opt_part :: "char \<Rightarrow> string option \<Rightarrow> string" where
  "opt_part c x = (case x of None \<Rightarrow> [] | Some t \<Rightarrow> c # t)"


text \<open>Segments none of which contains a slash.\<close>

definition slash_free :: "string list \<Rightarrow> bool" where
  "slash_free segs = list_all (\<lambda>s. CHR ''/'' \<notin> set s) segs"

section \<open>Strings\<close>

lemma startswith_prefix: "startswith s p \<longleftrightarrow> prefix p s"
  unfolding startswith_def
  by (metis append_eq_conv_conj prefix_def)

lemma endswith_suffix: "endswith s p \<longleftrightarrow> suffix p s"
  unfolding endswith_def
  by (metis suffix_def append_eq_conv_conj append_take_drop_id diff_add_inverse2
      length_append suffix_length_le)

lemma startswith_slash: "startswith s ''/'' \<longleftrightarrow> (\<exists>t. s = CHR ''/'' # t)"
  by (cases s) (auto simp: startswith_def)

lemma endswith_slash: "endswith s ''/'' \<longleftrightarrow> (s \<noteq> [] \<and> last s = CHR ''/'')"
proof (cases s rule: rev_cases)
  case Nil
  then show ?thesis by (simp add: endswith_def)
next
  case (snoc ys y)
  then show ?thesis by (auto simp: endswith_def)
qed

section \<open>The path and the body of a request\<close>

lemma request_prefix_cases:
  "request_prefix p = (if startswith p ''/'' then p else CHR ''/'' # p)"
  by (simp add: request_prefix_def)

lemma request_prefix_starts: "startswith (request_prefix p) ''/''"
  by (simp add: request_prefix_def startswith_def)

lemma request_path_starts: "startswith (request_path self p ps) ''/''"
  using request_prefix_starts [of p]
  by (auto simp: request_path_def Let_def startswith_prefix)

lemma request_path_cases:
  "request_path self p ps =
     (if request_suffix self ps \<noteq> [] \<and> \<not> suffix (request_suffix self ps) (request_prefix p)
      then request_prefix p @ request_suffix self ps else request_prefix p)"
  by (simp add: request_path_def Let_def endswith_suffix)

lemma ensure_client_fields [simp]:
  "root (ensure_client self) = root self"
  "PATH_SUFFIX (ensure_client self) = PATH_SUFFIX self"
  by (simp_all add: ensure_client_def)

lemma request_url_ensure [simp]:
  "request_url (ensure_client self) p ps = root self @ request_path self p ps"
  by (cases ps) (simp_all add: request_url_def request_path_def request_suffix_def)

lemma Connection_request_sends:
  assumes "client (ensure_client self) = Some c" and "c (lower meth) = Some f"
  shows "Connection_request self meth (PStr p) data data_mode headers ps =
           (ensure_client self,
            Inr (f (root self @ request_path self p ps) (request_kwargs data data_mode headers)))"
  using assms by (simp add: Connection_request_def Let_def)

lemma Connection_init_suffix:
  "Connection_init cc r c0 = Inr conn \<Longrightarrow> PATH_SUFFIX conn = ''/''"
  by (auto simp: Connection_init_def Connection_subclass_init_def split: sum.splits)

lemma lower_get: "lower ''GET'' = ''get''"
  by code_simp

lemma lower_post: "lower ''POST'' = ''post''"
  by code_simp

text \<open>
  C2. The path that \<open>Connection.request\<close> sends always begins with a slash, one
  being put in front of a path that has none. The effective suffix is the
  \<open>path_suffix\<close> argument when it is given and the field \<open>PATH_SUFFIX\<close> otherwise,
  which is a slash for a \<open>Connection\<close>. The suffix is appended exactly when it is
  not empty and the path does not end with it already, so that an empty suffix
  leaves the path alone. The client is called with the root followed by that path.
\<close>

theorem request_path_rule:
  "startswith (request_path self p ps) ''/''
   \<and> request_prefix p = (if prefix ''/'' p then p else ''/'' @ p)
   \<and> request_suffix self (Provided (PStr sfx)) = sfx
   \<and> request_suffix self NotProvided = PATH_SUFFIX self
   \<and> (\<forall>conn. Connection_init cc r c0 = Inr conn \<longrightarrow> PATH_SUFFIX conn = ''/'')
   \<and> request_path self p ps =
       (if request_suffix self ps \<noteq> [] \<and> \<not> suffix (request_suffix self ps) (request_prefix p)
        then request_prefix p @ request_suffix self ps else request_prefix p)
   \<and> request_path self p (Provided (PStr [])) = request_prefix p
   \<and> (\<forall>c f. client (ensure_client self) = Some c \<and> c (lower meth) = Some f \<longrightarrow>
        snd (Connection_request self meth (PStr p) data data_mode headers ps) =
          Inr (f (root self @ request_path self p ps) (request_kwargs data data_mode headers)))"
proof (intro conjI)
  show "startswith (request_path self p ps) ''/''"
    by (rule request_path_starts)
  show "request_prefix p = (if prefix ''/'' p then p else ''/'' @ p)"
    by (simp add: request_prefix_cases startswith_prefix)
  show "request_suffix self (Provided (PStr sfx)) = sfx"
    by (simp add: request_suffix_def)
  show "request_suffix self NotProvided = PATH_SUFFIX self"
    by (simp add: request_suffix_def)
  show "\<forall>conn. Connection_init cc r c0 = Inr conn \<longrightarrow> PATH_SUFFIX conn = ''/''"
    using Connection_init_suffix by blast
  show "request_path self p ps =
       (if request_suffix self ps \<noteq> [] \<and> \<not> suffix (request_suffix self ps) (request_prefix p)
        then request_prefix p @ request_suffix self ps else request_prefix p)"
    by (rule request_path_cases)
  show "request_path self p (Provided (PStr [])) = request_prefix p"
    by (simp add: request_path_def Let_def request_suffix_def)
  show "\<forall>c f. client (ensure_client self) = Some c \<and> c (lower meth) = Some f \<longrightarrow>
        snd (Connection_request self meth (PStr p) data data_mode headers ps) =
          Inr (f (root self @ request_path self p ps) (request_kwargs data data_mode headers))"
    by (simp add: Connection_request_sends)
qed

theorem request_path_rule_witness:
  "Connection_init (\<lambda>u. recording_client) ''https://httpbin.org/'' None
     = Inr \<lparr>PATH_SUFFIX = ''/'', DEFAULT_CLIENT_CLASS = (\<lambda>u. recording_client),
            client = None, root = ''https://httpbin.org''\<rparr>
   \<and> client (ensure_client \<lparr>PATH_SUFFIX = ''/'', DEFAULT_CLIENT_CLASS = (\<lambda>u. recording_client),
            client = None, root = ''https://httpbin.org''\<rparr>) = Some recording_client
   \<and> recording_client (lower ''GET'') = Some (\<lambda>url kw. (''get'', url, kw))
   \<and> snd (Connection_request \<lparr>PATH_SUFFIX = ''/'', DEFAULT_CLIENT_CLASS = (\<lambda>u. recording_client),
            client = None, root = ''https://httpbin.org''\<rparr>
          ''GET'' (PStr ''dummy_get'') NotProvided (PMode FORM) NotProvided NotProvided)
     = Inr (''get'', ''https://httpbin.org/dummy_get/'', [])"
proof -
  let ?S = "\<lparr>PATH_SUFFIX = ''/'', DEFAULT_CLIENT_CLASS = (\<lambda>u. recording_client),
            client = None, root = ''https://httpbin.org''\<rparr>
            :: (string \<times> Url \<times> kwargs) Connection"
  have "validate_root ''https://httpbin.org/'' = Inr ''https://httpbin.org''"
    by code_simp
  then have init: "Connection_init (\<lambda>u. recording_client) ''https://httpbin.org/'' None = Inr ?S"
    by (simp add: Connection_init_def Connection_subclass_init_def)
  have c: "client (ensure_client ?S) = Some recording_client"
    by (simp add: ensure_client_def)
  have f: "recording_client (lower ''GET'') = Some (\<lambda>url kw. (''get'', url, kw))"
    by (simp add: lower_get recording_client_def)
  have path: "request_path ?S ''dummy_get'' NotProvided = ''/dummy_get/''"
    by (simp add: request_path_def request_prefix_def request_suffix_def startswith_def endswith_def)
  have "snd (Connection_request ?S ''GET'' (PStr ''dummy_get'') NotProvided (PMode FORM)
               NotProvided NotProvided)
        = Inr (''get'', root ?S @ request_path ?S ''dummy_get'' NotProvided,
               request_kwargs NotProvided (PMode FORM) NotProvided)"
    using request_path_rule [of ?S "''dummy_get''" NotProvided "''/''" "\<lambda>u. recording_client"
        "''https://httpbin.org/''" None "''GET''" NotProvided "PMode FORM" NotProvided] c f
    by blast
  then show ?thesis
    using init c f by (simp add: path request_kwargs_def)
qed

text \<open>
  C10. An explicit \<open>path_suffix=None\<close> is turned into the text \<open>None\<close> by \<open>str\<close>
  and appended like any other suffix: \<open>request('get', '/foo', path_suffix=None)\<close>
  asks the client for the root followed by \<open>/fooNone\<close>.
\<close>

theorem path_suffix_None:
  "request_suffix self (Provided PNone) = ''None''
   \<and> request_path self p (Provided PNone) =
       (if suffix ''None'' (request_prefix p) then request_prefix p else request_prefix p @ ''None'')
   \<and> request_path self ''/foo'' (Provided PNone) = ''/fooNone''
   \<and> snd (Connection_request (conn\<lparr>client := Some recording_client\<rparr>) ''get'' (PStr ''/foo'')
            NotProvided (PMode FORM) NotProvided (Provided PNone))
       = Inr (''get'', root conn @ ''/fooNone'', [])
   \<and> call_request conn ''get'' (PStr ''/foo'') [] [(''path_suffix'', PNone)]
       = Connection_request conn ''get'' (PStr ''/foo'') NotProvided (PMode FORM) NotProvided
           (Provided PNone)"
proof (intro conjI)
  show s: "request_suffix self (Provided PNone) = ''None''"
    by (simp add: request_suffix_def)
  show "request_path self p (Provided PNone) =
       (if suffix ''None'' (request_prefix p) then request_prefix p else request_prefix p @ ''None'')"
    by (simp add: request_path_cases s)
  show "request_path self ''/foo'' (Provided PNone) = ''/fooNone''"
    by (simp add: request_path_def request_prefix_def request_suffix_def startswith_def endswith_def)
  show "snd (Connection_request (conn\<lparr>client := Some recording_client\<rparr>) ''get'' (PStr ''/foo'')
            NotProvided (PMode FORM) NotProvided (Provided PNone))
       = Inr (''get'', root conn @ ''/fooNone'', [])"
    by (simp add: Connection_request_def ensure_client_def request_url_def request_path_def
        request_prefix_def request_suffix_def startswith_def endswith_def request_kwargs_def
        recording_client_def lower_def lower_char_def)
  show "call_request conn ''get'' (PStr ''/foo'') [] [(''path_suffix'', PNone)]
       = Connection_request conn ''get'' (PStr ''/foo'') NotProvided (PMode FORM) NotProvided
           (Provided PNone)"
    by (simp add: call_request_def request_params_def given_def)
qed

lemma request_kwargs_data:
  "map_of (request_kwargs data dm h) ''data'' =
     (case data of
        NotProvided \<Rightarrow> None
      | Provided d \<Rightarrow> Some (if dm = PMode JSON then PStr (json_dumps d) else d))"
  by (cases data; cases h) (simp_all add: request_kwargs_def)

lemma json_dumps_foo_bar:
  "json_dumps (PDict [(''foo'', PStr ''bar'')])
     = ''{'' @ [CHR 0x22] @ ''foo'' @ [CHR 0x22] @ '': '' @ [CHR 0x22] @ ''bar'' @ [CHR 0x22] @ ''}''"
  by code_simp

text \<open>
  C6. When \<open>data\<close> is given, the body handed to the client is the JSON text of
  \<open>data\<close> if \<open>data_mode\<close> is \<open>DataModes.JSON\<close>, and \<open>data\<close> itself otherwise;
  \<open>FORM\<close> is the mode of a call that names none. When \<open>data\<close> is omitted the
  client gets no \<open>data\<close> argument at all, while an explicit \<open>None\<close> is passed on
  as \<open>None\<close>.
\<close>

theorem request_data_body:
  "map_of (request_kwargs (Provided d) (PMode JSON) h) ''data'' = Some (PStr (json_dumps d))
   \<and> (dm \<noteq> PMode JSON \<longrightarrow> map_of (request_kwargs (Provided d) dm h) ''data'' = Some d)
   \<and> map_of (request_kwargs NotProvided dm h) ''data'' = None
   \<and> map_of (request_kwargs (Provided PNone) (PMode FORM) h) ''data'' = Some PNone
   \<and> json_dumps (PDict [(''foo'', PStr ''bar'')])
       = ''{'' @ [CHR 0x22] @ ''foo'' @ [CHR 0x22] @ '': '' @ [CHR 0x22] @ ''bar'' @ [CHR 0x22] @ ''}''
   \<and> call_request conn meth q [] [(''data'', d)]
       = Connection_request conn meth q (Provided d) (PMode FORM) NotProvided NotProvided
   \<and> (\<forall>c f. client (ensure_client self) = Some c \<and> c (lower meth) = Some f \<longrightarrow>
        snd (Connection_request self meth (PStr p) data dm h ps) =
          Inr (f (root self @ request_path self p ps) (request_kwargs data dm h)))"
proof (intro conjI)
  show "map_of (request_kwargs (Provided d) (PMode JSON) h) ''data'' = Some (PStr (json_dumps d))"
    by (simp add: request_kwargs_data)
  show "dm \<noteq> PMode JSON \<longrightarrow> map_of (request_kwargs (Provided d) dm h) ''data'' = Some d"
    by (simp add: request_kwargs_data)
  show "map_of (request_kwargs NotProvided dm h) ''data'' = None"
    by (simp add: request_kwargs_data)
  show "map_of (request_kwargs (Provided PNone) (PMode FORM) h) ''data'' = Some PNone"
    by (simp add: request_kwargs_data)
  show "json_dumps (PDict [(''foo'', PStr ''bar'')])
       = ''{'' @ [CHR 0x22] @ ''foo'' @ [CHR 0x22] @ '': '' @ [CHR 0x22] @ ''bar'' @ [CHR 0x22] @ ''}''"
    by (rule json_dumps_foo_bar)
  show "call_request conn meth q [] [(''data'', d)]
       = Connection_request conn meth q (Provided d) (PMode FORM) NotProvided NotProvided"
    by (simp add: call_request_def request_params_def given_def)
  show "\<forall>c f. client (ensure_client self) = Some c \<and> c (lower meth) = Some f \<longrightarrow>
        snd (Connection_request self meth (PStr p) data dm h ps) =
          Inr (f (root self @ request_path self p ps) (request_kwargs data dm h))"
    by (simp add: Connection_request_sends)
qed

theorem request_data_body_witness:
  "PMode FORM \<noteq> PMode JSON
   \<and> map_of (request_kwargs (Provided (PDict [(''foo'', PStr ''bar'')])) (PMode FORM) NotProvided) ''data''
       = Some (PDict [(''foo'', PStr ''bar'')])
   \<and> client (ensure_client \<lparr>PATH_SUFFIX = ''/'', DEFAULT_CLIENT_CLASS = (\<lambda>u. recording_client),
            client = None, root = []\<rparr>) = Some recording_client
   \<and> recording_client (lower ''POST'') = Some (\<lambda>url kw. (''post'', url, kw))
   \<and> snd (Connection_request \<lparr>PATH_SUFFIX = ''/'', DEFAULT_CLIENT_CLASS = (\<lambda>u. recording_client),
            client = None, root = []\<rparr>
          ''POST'' (PStr ''/dummy_post_json'') (Provided (PDict [(''foo'', PStr ''bar'')]))
          (PMode JSON) NotProvided NotProvided)
     = Inr (''post'', ''/dummy_post_json/'',
            [(''data'', PStr (''{'' @ [CHR 0x22] @ ''foo'' @ [CHR 0x22] @ '': '' @ [CHR 0x22]
                              @ ''bar'' @ [CHR 0x22] @ ''}''))])"
proof -
  let ?S = "\<lparr>PATH_SUFFIX = ''/'', DEFAULT_CLIENT_CLASS = (\<lambda>u. recording_client),
            client = None, root = []\<rparr> :: (string \<times> Url \<times> kwargs) Connection"
  let ?d = "PDict [(''foo'', PStr ''bar'')]"
  note inst = request_data_body [of ?d NotProvided "PMode FORM" ?S "''POST''" "PStr []" ?S
      "''/dummy_post_json''" "Provided ?d" NotProvided]
  have m: "PMode FORM \<noteq> PMode JSON"
    by simp
  have form: "map_of (request_kwargs (Provided ?d) (PMode FORM) NotProvided) ''data'' = Some ?d"
    using inst m by blast
  have c: "client (ensure_client ?S) = Some recording_client"
    by (simp add: ensure_client_def)
  have f: "recording_client (lower ''POST'') = Some (\<lambda>url kw. (''post'', url, kw))"
    by (simp add: lower_post recording_client_def)
  have path: "request_path ?S ''/dummy_post_json'' NotProvided = ''/dummy_post_json/''"
    by (simp add: request_path_def request_prefix_def request_suffix_def startswith_def endswith_def)
  have "snd (Connection_request ?S ''POST'' (PStr ''/dummy_post_json'') (Provided ?d)
               (PMode JSON) NotProvided NotProvided)
        = Inr (''post'', root ?S @ request_path ?S ''/dummy_post_json'' NotProvided,
               request_kwargs (Provided ?d) (PMode JSON) NotProvided)"
    using request_data_body [of ?d NotProvided "PMode JSON" ?S "''POST''" "PStr []" ?S
      "''/dummy_post_json''" "Provided ?d" NotProvided] c f
    by blast
  then show ?thesis
    using m form c f
    by (simp add: path request_kwargs_def json_dumps_foo_bar del: json_dumps.simps)
qed

section \<open>Splitting and joining\<close>

lemma str_split_nonempty: "str_split c s \<noteq> []"
  by (induction s) (auto split: list.splits)

lemma str_split_no_sep: "x \<in> set (str_split c s) \<Longrightarrow> c \<notin> set x"
proof (induction s arbitrary: x)
  case Nil
  then show ?case by simp
next
  case (Cons a s)
  then show ?case
    by (cases "str_split c s") (auto split: if_splits)
qed

lemma str_split_id: "c \<notin> set s \<Longrightarrow> str_split c s = [s]"
  by (induction s) auto

lemma str_split_append: "str_split c (a @ c # b) = str_split c a @ str_split c b"
proof (induction a)
  case Nil
  then show ?case by simp
next
  case (Cons x a)
  then show ?case
    using str_split_nonempty [of c a]
    by (cases "str_split c a") auto
qed

lemma concat_split_id:
  "list_all (\<lambda>s. c \<notin> set s) xs \<Longrightarrow> concat (map (str_split c) xs) = xs"
  by (induction xs) (auto simp: str_split_id)

lemma slash_free_split: "slash_free (str_split CHR ''/'' s)"
  using str_split_no_sep [of _ "CHR ''/''" s]
  by (auto simp: slash_free_def list_all_iff)

lemma slash_free_append [simp]: "slash_free (xs @ ys) \<longleftrightarrow> slash_free xs \<and> slash_free ys"
  by (simp add: slash_free_def)

lemma slash_free_segments: "slash_free (segments_of args)"
  by (induction args) (simp_all add: segments_of_def slash_free_split, simp add: slash_free_def)

lemma segments_of_append [simp]: "segments_of (xs @ ys) = segments_of xs @ segments_of ys"
  by (simp add: segments_of_def)

lemma segments_of_strs: "slash_free ps \<Longrightarrow> segments_of (map PStr ps) = ps"
  using concat_split_id [of "CHR ''/''" ps]
  by (simp add: segments_of_def slash_free_def comp_def)

lemma parts_Callable_init [simp]: "parts (Callable_init conn ps) = segments_of ps"
  by (simp add: Callable_init_def segments_of_def)

lemma connection_Callable_init [simp]: "Callable.connection (Callable_init conn ps) = conn"
  by (simp add: Callable_init_def)

lemma join_slash_concat:
  "segs \<noteq> [] \<Longrightarrow> CHR ''/'' # join ''/'' segs = concat (map (\<lambda>s. CHR ''/'' # s) segs)"
proof (induction segs)
  case Nil
  then show ?case by simp
next
  case (Cons x segs)
  then show ?case by (cases segs) simp_all
qed

lemma join_slash_each: "CHR ''/'' # join ''/'' segs = slash_each segs"
  by (cases "segs = []") (simp_all add: slash_each_def join_slash_concat)

section \<open>Accumulators\<close>


lemma produced_slash_free: "produced conn c \<Longrightarrow> slash_free (parts c)"
  by (induction rule: produced.induct)
     (auto simp: Connection_getattr_def Connection_call_def Callable_getattr_def Callable_call_def
        slash_free_segments split: if_splits)

lemma parts_Callable_call:
  "slash_free (parts c) \<Longrightarrow> parts (Callable_call c args) = parts c @ segments_of args"
  by (simp add: Callable_call_def segments_of_strs) (simp add: segments_of_def)

lemma segments_of_length: "length args \<le> length (segments_of args)"
proof (induction args)
  case Nil
  then show ?case by (simp add: segments_of_def)
next
  case (Cons a args)
  have "1 \<le> length (str_split CHR ''/'' (py_str a))"
    using str_split_nonempty [of "CHR ''/''" "py_str a"]
    by (cases "str_split CHR ''/'' (py_str a)") auto
  with Cons show ?case by (simp add: segments_of_def)
qed

lemma segments_of_nonempty: "args \<noteq> [] \<Longrightarrow> segments_of args \<noteq> []"
  using segments_of_length [of args] by (cases args) auto

lemma split_hd_empty:
  "hd (str_split c s) = [] \<longleftrightarrow> s = [] \<or> hd s = c"
  using str_split_nonempty [of c "tl s"]
  by (cases s; cases "str_split c (tl s)") auto

lemma split_tl_empty:
  "[] \<in> set (tl (str_split c s)) \<longleftrightarrow> s \<noteq> [] \<and> (last s = c \<or> sublist [c, c] s)"
proof (induction s)
  case Nil
  then show ?case by simp
next
  case (Cons x xs)
  obtain p ps where sp: "str_split c xs = p # ps"
    using str_split_nonempty [of c xs] by (cases "str_split c xs") auto
  have hd_xs: "p = [] \<longleftrightarrow> xs = [] \<or> hd xs = c"
    using split_hd_empty [of c xs] sp by simp
  have tl_xs: "[] \<in> set ps \<longleftrightarrow> xs \<noteq> [] \<and> (last xs = c \<or> sublist [c, c] xs)"
    using Cons.IH sp by simp
  show ?case
  proof (cases "x = c")
    case True
    have "sublist [c, c] (c # xs) \<longleftrightarrow> (xs \<noteq> [] \<and> hd xs = c) \<or> sublist [c, c] xs"
      by (cases xs) (auto simp: sublist_Cons_right)
    then show ?thesis
      using True sp hd_xs tl_xs by auto
  next
    case False
    have "sublist [c, c] (x # xs) \<longleftrightarrow> sublist [c, c] xs"
      using False by (auto simp: sublist_Cons_right)
    moreover have "sublist [c, c] xs \<Longrightarrow> xs \<noteq> []"
      by auto
    ultimately show ?thesis
      using False sp tl_xs by auto
  qed
qed

lemma split_has_empty:
  "[] \<in> set (str_split CHR ''/'' s) \<longleftrightarrow> stray_slash s"
proof -
  have "[] \<in> set (str_split CHR ''/'' s)
        \<longleftrightarrow> hd (str_split CHR ''/'' s) = [] \<or> [] \<in> set (tl (str_split CHR ''/'' s))"
    using str_split_nonempty [of "CHR ''/''" s]
    by (cases "str_split CHR ''/'' s") auto
  also have "\<dots> \<longleftrightarrow> stray_slash s"
    unfolding split_hd_empty split_tl_empty stray_slash_def startswith_slash endswith_slash
    by (cases s) auto
  finally show ?thesis .
qed

lemma segments_have_empty:
  "[] \<in> set (segments_of args) \<longleftrightarrow> (\<exists>a \<in> set args. stray_slash (py_str a))"
  by (auto simp: segments_of_def split_has_empty)

lemma segments_of_PStr [simp]: "segments_of [PStr s] = str_split CHR ''/'' s"
  by (simp add: segments_of_def)

lemma Callable_getattr_parts:
  assumes "slash_free (parts c)" and "Callable_getattr c a = IsCallable c'"
  shows "parts c' = parts c @ str_split CHR ''/'' a"
  using assms
  by (auto simp: Callable_getattr_def segments_of_strs split: if_splits)

text \<open>
  C9, as the code has it. The constructor keeps every piece that \<open>str.split\<close>
  returns, so a segment is empty exactly where an argument, as text, is empty,
  starts or ends with a slash, or has two slashes in a row; arguments without such
  slashes add no empty segment, and no segment ever contains a slash.
\<close>

theorem segments_empty_iff:
  "([] \<in> set (parts (Callable_init conn ps)) \<longleftrightarrow> (\<exists>a \<in> set ps. stray_slash (py_str a)))
   \<and> (produced conn c \<longrightarrow> slash_free (parts c))
   \<and> (produced conn c \<longrightarrow> args \<noteq> [] \<longrightarrow>
        ([] \<in> set (parts (Callable_call c args))
           \<longleftrightarrow> [] \<in> set (parts c) \<or> (\<exists>a \<in> set args. stray_slash (py_str a))))
   \<and> (produced conn c \<longrightarrow> Callable_getattr c attr = IsCallable c' \<longrightarrow>
        ([] \<in> set (parts c') \<longleftrightarrow> [] \<in> set (parts c) \<or> stray_slash attr))"
proof (intro conjI impI)
  show "[] \<in> set (parts (Callable_init conn ps)) \<longleftrightarrow> (\<exists>a \<in> set ps. stray_slash (py_str a))"
    by (simp add: segments_have_empty)
  show "slash_free (parts c)" if "produced conn c"
    using that by (rule produced_slash_free)
  show "[] \<in> set (parts (Callable_call c args))
           \<longleftrightarrow> [] \<in> set (parts c) \<or> (\<exists>a \<in> set args. stray_slash (py_str a))"
    if "produced conn c" and "args \<noteq> []"
    using that by (simp add: parts_Callable_call produced_slash_free segments_have_empty)
  show "[] \<in> set (parts c') \<longleftrightarrow> [] \<in> set (parts c) \<or> stray_slash attr"
    if "produced conn c" and "Callable_getattr c attr = IsCallable c'"
    using Callable_getattr_parts [OF produced_slash_free [OF that(1)] that(2)]
    by (simp add: split_has_empty)
qed

theorem segments_empty_iff_witness:
  "produced () (Callable_init () [PStr ''foo''])
   \<and> [PStr ''bar'', PInt 1] \<noteq> []
   \<and> [] \<notin> set (parts (Callable_call (Callable_init () [PStr ''foo'']) [PStr ''bar'', PInt 1]))
   \<and> slash_free (parts (Callable_init () [PStr ''foo'']))"
proof -
  let ?c = "Callable_init () [PStr ''foo'']"
  let ?args = "[PStr ''bar'', PInt 1]"
  have p: "produced () ?c"
    by (rule produced.by_init)
  have n: "?args \<noteq> []"
    by simp
  have free: "slash_free (parts ?c)"
    using segments_empty_iff [of "()" "[]" ?c ?args] p by blast
  have old: "[] \<notin> set (parts ?c)"
    by code_simp
  have new: "\<not> (\<exists>a \<in> set ?args. stray_slash (py_str a))"
    by code_simp
  have "[] \<in> set (parts (Callable_call ?c ?args))
           \<longleftrightarrow> [] \<in> set (parts ?c) \<or> (\<exists>a \<in> set ?args. stray_slash (py_str a))"
    using segments_empty_iff [of "()" "[]" ?c ?args] p n by blast
  then show ?thesis
    using p n free old new by blast
qed

theorem segments_trailing_slash_counterexample:
  "parts (Callable_init () [PStr ''bar/'']) = [''bar'', []]
   \<and> parts (Callable_init () [PStr ''/bar'']) = [[], ''bar'']
   \<and> parts (Callable_init () [PStr ''a//b'']) = [''a'', [], ''b'']"
  by code_simp

section \<open>Decimal text of an integer\<close>

lemma of_char_digit_char: "d < 10 \<Longrightarrow> (of_char (digit_char d) :: nat) = 48 + d"
  by (simp add: digit_char_def)

lemma is_digit_digit_char: "d < 10 \<Longrightarrow> is_digit (digit_char d)"
  by (simp add: is_digit_def of_char_digit_char)

lemma digits_value_snoc: "digits_value (s @ [c]) = 10 * digits_value s + (of_char c - 48)"
  by (simp add: digits_value_def)

lemma str_nat_digits: "list_all is_digit (str_nat n)"
proof (induction n rule: str_nat.induct)
  case (1 n)
  show ?case
  proof (cases "n < 10")
    case True
    then show ?thesis by (simp add: str_nat.simps [of n] is_digit_digit_char)
  next
    case False
    then show ?thesis
      using 1 by (simp add: str_nat.simps [of n] is_digit_digit_char)
  qed
qed

lemma str_nat_nonempty: "str_nat n \<noteq> []"
  by (simp add: str_nat.simps [of n])

lemma str_nat_value: "digits_value (str_nat n) = n"
proof (induction n rule: str_nat.induct)
  case (1 n)
  show ?case
  proof (cases "n < 10")
    case True
    then show ?thesis
      by (simp add: str_nat.simps [of n] digits_value_def of_char_digit_char)
  next
    case False
    then show ?thesis
      using 1 by (simp add: str_nat.simps [of n] digits_value_snoc of_char_digit_char)
  qed
qed

lemma is_digit_chars: "is_digit c \<Longrightarrow> c \<noteq> CHR ''-'' \<and> c \<noteq> CHR ''/''"
  by (auto simp: is_digit_def)

lemma str_nat_chars: "c \<in> set (str_nat n) \<Longrightarrow> c \<noteq> CHR ''-'' \<and> c \<noteq> CHR ''/''"
  using str_nat_digits [of n] is_digit_chars by (auto simp: list_all_iff)

lemma decimal_value_str_int: "decimal_value (str_int i) = Some i"
proof (cases "i < 0")
  case True
  then show ?thesis
    by (simp add: decimal_value_def str_int_def str_nat_digits str_nat_nonempty str_nat_value)
next
  case False
  obtain c ds where s: "str_nat (nat i) = c # ds"
    using str_nat_nonempty [of "nat i"] by (cases "str_nat (nat i)") auto
  then have "c \<noteq> CHR ''-''"
    using str_nat_chars [of c "nat i"] by simp
  moreover have "list_all is_digit (c # ds)" and "digits_value (c # ds) = nat i"
    using str_nat_digits [of "nat i"] str_nat_value [of "nat i"] s by simp_all
  ultimately show ?thesis
    using False s by (simp add: decimal_value_def str_int_def)
qed

lemma str_int_no_slash: "CHR ''/'' \<notin> set (str_int i)"
  using str_nat_chars by (auto simp: str_int_def)

lemma segments_of_PInt: "segments_of [PInt i] = [str_int i]"
  by (simp add: segments_of_def str_split_id str_int_no_slash)

section \<open>The path of an accumulator\<close>

lemma Callable_path_slash_each: "Callable_path c = slash_each (parts c)"
  using join_slash_each [of "parts c"] by (simp add: Callable_path_def)

lemma segments_of_segments: "segments_of (map PStr (segments_of xs)) = segments_of xs"
  by (rule segments_of_strs) (rule slash_free_segments)

lemma segments_of_split:
  "segments_of (map PStr (str_split CHR ''/'' s)) = str_split CHR ''/'' s"
  by (rule segments_of_strs) (rule slash_free_split)

lemma Callable_call_one:
  "Callable_call c [a] = Callable_init (Callable.connection c) (map PStr (parts c) @ [a])"
  by (simp add: Callable_call_def)

lemma Callable_call_slash:
  "Callable_call c [PStr (a @ ''/'' @ b)] = Callable_call (Callable_call c [PStr a]) [PStr b]"
proof -
  have "segments_of (map PStr (parts c) @ [PStr (a @ ''/'' @ b)])
        = segments_of (map PStr (segments_of (map PStr (parts c) @ [PStr a])) @ [PStr b])"
    by (simp add: segments_of_segments segments_of_split str_split_append)
  then show ?thesis
    by (simp add: Callable_call_one Callable_init_def segments_of_def)
qed

text \<open>
  C4. The path of an accumulator is a slash followed by its segments joined with
  slashes, that is a slash before every segment, and a single slash when there
  is none. An extension of an accumulator that the connection handed out appends
  the segments of its arguments. An integer argument contributes its decimal
  numeral. One argument \<open>a/b\<close> gives the accumulator that \<open>a\<close> and then \<open>b\<close>
  give.
\<close>

theorem accumulator_path:
  "Callable_path c = slash_each (parts c)
   \<and> Callable_path (Callable_init conn []) = ''/''
   \<and> parts (Callable_init conn [PInt i]) = [str_int i]
   \<and> decimal_value (str_int i) = Some i
   \<and> parts (Callable_init conn (xs @ ys)) = parts (Callable_init conn xs) @ segments_of ys
   \<and> (produced conn c \<longrightarrow> parts (Callable_call c args) = parts c @ segments_of args)
   \<and> (produced conn c \<longrightarrow> Callable_getattr c attr = IsCallable c' \<longrightarrow>
        parts c' = parts c @ str_split CHR ''/'' attr)
   \<and> segments_of [PStr (a @ ''/'' @ b)] = segments_of [PStr a, PStr b]
   \<and> Callable_call c [PStr (a @ ''/'' @ b)] = Callable_call (Callable_call c [PStr a]) [PStr b]"
proof (intro conjI impI)
  show "Callable_path c = slash_each (parts c)"
    by (rule Callable_path_slash_each)
  show "Callable_path (Callable_init conn []) = ''/''"
    by (simp add: Callable_path_def segments_of_def)
  show "parts (Callable_init conn [PInt i]) = [str_int i]"
    by (simp add: segments_of_PInt)
  show "decimal_value (str_int i) = Some i"
    by (rule decimal_value_str_int)
  show "parts (Callable_init conn (xs @ ys)) = parts (Callable_init conn xs) @ segments_of ys"
    by simp
  show "parts (Callable_call c args) = parts c @ segments_of args" if "produced conn c"
    using that by (simp add: parts_Callable_call produced_slash_free)
  show "parts c' = parts c @ str_split CHR ''/'' attr"
    if "produced conn c" and "Callable_getattr c attr = IsCallable c'"
    using that by (simp add: Callable_getattr_parts produced_slash_free)
  show "segments_of [PStr (a @ ''/'' @ b)] = segments_of [PStr a, PStr b]"
    by (simp add: segments_of_def str_split_append)
  show "Callable_call c [PStr (a @ ''/'' @ b)] = Callable_call (Callable_call c [PStr a]) [PStr b]"
    by (rule Callable_call_slash)
qed

theorem accumulator_path_witness:
  "produced () (Callable_init () [PStr ''foo''])
   \<and> Callable_getattr (Callable_init () [PStr ''foo'']) ''bar''
       = IsCallable (Callable_init () [PStr ''foo'', PStr ''bar''])
   \<and> parts (Callable_init () [PStr ''foo'', PStr ''bar'']) = [''foo'', ''bar'']
   \<and> parts (Callable_call (Callable_init () [PStr ''foo'']) [PStr ''bar/baz'', PInt 1])
       = [''foo'', ''bar'', ''baz'', ''1'']
   \<and> Callable_path (Callable_call (Callable_init () [PStr ''foo'']) [PStr ''bar/baz'', PInt 1])
       = ''/foo/bar/baz/1''"
proof -
  let ?c = "Callable_init () [PStr ''foo'']"
  let ?c' = "Callable_init () [PStr ''foo'', PStr ''bar'']"
  let ?args = "[PStr ''bar/baz'', PInt 1]"
  note inst = accumulator_path [where c = "Callable_call ?c ?args"]
  have p: "produced () ?c"
    by (rule produced.by_init)
  have g: "Callable_getattr ?c ''bar'' = IsCallable ?c'"
    by code_simp
  have "parts ?c' = parts ?c @ str_split CHR ''/'' ''bar''"
    using accumulator_path [where c = ?c and conn = "()" and attr = "''bar''" and c' = ?c'] p g
    by blast
  then have a: "parts ?c' = [''foo'', ''bar'']"
    by (simp add: segments_of_def)
  have "parts (Callable_call ?c ?args) = parts ?c @ segments_of ?args"
    using accumulator_path [where c = ?c and conn = "()" and args = ?args] p
    by blast
  moreover have "segments_of ?args = [''bar'', ''baz'', ''1'']"
    by code_simp
  ultimately have b: "parts (Callable_call ?c ?args) = [''foo'', ''bar'', ''baz'', ''1'']"
    by (simp add: segments_of_def)
  have "Callable_path (Callable_call ?c ?args) = slash_each (parts (Callable_call ?c ?args))"
    using inst by blast
  then have "Callable_path (Callable_call ?c ?args) = ''/foo/bar/baz/1''"
    by (simp only: b) (simp add: slash_each_def)
  then show ?thesis
    using p g a b by blast
qed

section \<open>Calling an accumulator\<close>

lemma Callable_call_longer:
  assumes "args \<noteq> []"
  shows "length (parts c) < length (parts (Callable_call c args))"
proof -
  obtain x xs where args: "args = x # xs"
    using assms by (cases args) auto
  have "length (map PStr (parts c) @ args) \<le> length (segments_of (map PStr (parts c) @ args))"
    by (rule segments_of_length)
  then show ?thesis
    by (simp add: Callable_call_def args)
qed

lemma Callable_call_extends:
  assumes "slash_free (parts c)" and "args \<noteq> []"
  shows "strict_prefix (parts c) (parts (Callable_call c args))"
proof -
  obtain s ss where "segments_of args = s # ss"
    using segments_of_nonempty [OF assms(2)] by (cases "segments_of args") auto
  then show ?thesis
    using assms(1) by (simp add: parts_Callable_call strict_prefixI')
qed

lemma lookup_alloc:
  "lookup (snd (alloc h obj)) a = (if a = length h then Some obj else lookup h a)"
  by (auto simp: lookup_def alloc_def nth_append)

text \<open>
  C8. Called with no argument, an accumulator returns the very reference it was
  called on and allocates nothing. Called with at least one argument, it returns
  a reference that was not in the store before, every object that was in the
  store stays as it was, and the new accumulator has strictly more segments than
  the original; for an accumulator that the connection handed out, the original
  segments are a proper prefix of the new ones.
\<close>

theorem Callable_call_identity:
  assumes "lookup h self = Some obj"
  shows "Callable_call_ref h self [] = Some (self, h)
     \<and> Callable_call obj [] = obj
     \<and> (args \<noteq> [] \<longrightarrow>
          (\<exists>r h'. Callable_call_ref h self args = Some (r, h')
             \<and> r \<noteq> self \<and> lookup h r = None
             \<and> lookup h' r = Some (Callable_call obj args)
             \<and> (\<forall>a. lookup h a \<noteq> None \<longrightarrow> lookup h' a = lookup h a)
             \<and> lookup h' self = Some obj
             \<and> length (parts obj) < length (parts (Callable_call obj args))
             \<and> (produced conn obj \<longrightarrow>
                  strict_prefix (parts obj) (parts (Callable_call obj args)))))"
proof (intro conjI impI)
  show "Callable_call_ref h self [] = Some (self, h)"
    using assms by (simp add: Callable_call_ref_def)
  show "Callable_call obj [] = obj"
    by (simp add: Callable_call_def)
  assume args: "args \<noteq> []"
  let ?new = "Callable_call obj args"
  let ?h' = "h @ [?new]"
  have self: "self < length h"
    using assms by (auto simp: lookup_def split: if_splits)
  have call: "Callable_call_ref h self args = Some (length h, ?h')"
    using assms args by (simp add: Callable_call_ref_def alloc_def Callable_call_def)
  have h': "lookup ?h' a = (if a = length h then Some ?new else lookup h a)" for a
    using lookup_alloc [of h ?new a] by (simp add: alloc_def)
  have "length h \<noteq> self" and "lookup h (length h) = None"
    using self by (simp_all add: lookup_def)
  moreover have "lookup ?h' (length h) = Some ?new"
    by (simp add: h')
  moreover have "\<forall>a. lookup h a \<noteq> None \<longrightarrow> lookup ?h' a = lookup h a"
    by (auto simp: lookup_def nth_append)
  moreover have "lookup ?h' self = Some obj"
    using self assms by (simp add: h')
  moreover have "length (parts obj) < length (parts ?new)"
    using args by (rule Callable_call_longer)
  moreover have "produced conn obj \<longrightarrow> strict_prefix (parts obj) (parts ?new)"
    using args by (simp add: Callable_call_extends produced_slash_free)
  ultimately show "\<exists>r h'. Callable_call_ref h self args = Some (r, h')
             \<and> r \<noteq> self \<and> lookup h r = None
             \<and> lookup h' r = Some (Callable_call obj args)
             \<and> (\<forall>a. lookup h a \<noteq> None \<longrightarrow> lookup h' a = lookup h a)
             \<and> lookup h' self = Some obj
             \<and> length (parts obj) < length (parts (Callable_call obj args))
             \<and> (produced conn obj \<longrightarrow>
                  strict_prefix (parts obj) (parts (Callable_call obj args)))"
    using call by blast
qed

theorem Callable_call_identity_witness:
  "lookup [Callable_init () [PStr ''foo'']] 0 = Some (Callable_init () [PStr ''foo''])
   \<and> [PStr ''bar'', PInt 1] \<noteq> []
   \<and> produced () (Callable_init () [PStr ''foo''])
   \<and> Callable_call_ref [Callable_init () [PStr ''foo'']] 0 [] = Some (0, [Callable_init () [PStr ''foo'']])
   \<and> Callable_call_ref [Callable_init () [PStr ''foo'']] 0 [PStr ''bar'', PInt 1]
        = Some (1, [Callable_init () [PStr ''foo''],
                    Callable_init () [PStr ''foo'', PStr ''bar'', PInt 1]])
   \<and> strict_prefix (parts (Callable_init () [PStr ''foo'']))
        (parts (Callable_call (Callable_init () [PStr ''foo'']) [PStr ''bar'', PInt 1]))"
proof -
  let ?c = "Callable_init () [PStr ''foo'']"
  let ?args = "[PStr ''bar'', PInt 1]"
  have l: "lookup [?c] 0 = Some ?c"
    by (simp add: lookup_def)
  have n: "?args \<noteq> []"
    by simp
  have p: "produced () ?c"
    by (rule produced.by_init)
  note inst = Callable_call_identity [OF l, where args = ?args and conn = "()"]
  have zero: "Callable_call_ref [?c] 0 [] = Some (0, [?c])"
    using inst by blast
  have ext: "strict_prefix (parts ?c) (parts (Callable_call ?c ?args))"
    using inst n p by blast
  have one: "Callable_call_ref [?c] 0 ?args
        = Some (1, [?c, Callable_init () [PStr ''foo'', PStr ''bar'', PInt 1]])"
    by code_simp
  show ?thesis
    using l n p zero one ext by blast
qed

section \<open>Attribute access\<close>









section \<open>Invoking an Executable\<close>











section \<open>Parsing a root URL\<close>




lemma str_find_absent: "c \<notin> set a \<Longrightarrow> str_find c a = None"
  by (simp add: str_find_def)








lemma opt_part_simps [simp]: "opt_part c None = []" "opt_part c (Some x) = c # x"
  by (simp_all add: opt_part_def)





lemma last_segment_plain: "CHR ''/'' \<notin> set b \<Longrightarrow> last_segment b = b"
  by (simp add: last_segment_def str_split_id)








section \<open>Constructing a connection\<close>

lemma urlsplit_rest_scheme: "urlsplit_rest sch url = Inr R \<Longrightarrow> sr_scheme R = sch"
  by (auto simp: urlsplit_rest_def Let_def split: if_splits prod.splits)

lemma urlsplit_no_colon:
  assumes "CHR '':'' \<notin> set r" and "urlsplit r = Inr R"
  shows "sr_scheme R = []"
  using assms urlsplit_rest_scheme [of "[]" r R]
  by (simp add: urlsplit_def str_find_absent)

lemma urlparse_scheme:
  "urlparse r = Inr parsed \<Longrightarrow> \<exists>R. urlsplit r = Inr R \<and> scheme parsed = sr_scheme R"
  by (auto simp: urlparse_def Let_def split: sum.splits prod.splits)

lemma validate_root_assert:
  assumes "urlparse r = Inr parsed" and "scheme parsed \<notin> {''http'', ''https''}"
  shows "validate_root r = Inl AssertionError"
  using assms by (simp add: validate_root_def)

lemma validate_root_ok:
  assumes "validate_root r = Inr v"
  shows "\<exists>parsed. urlparse r = Inr parsed \<and> scheme parsed \<in> {''http'', ''https''}"
  using assms by (auto simp: validate_root_def split: sum.splits if_splits)

lemma validate_root_no_colon:
  assumes "CHR '':'' \<notin> set r"
  shows "validate_root r = Inl AssertionError \<or> validate_root r = Inl ValueError"
proof (cases "urlparse r")
  case (Inl e)
  then have "urlsplit r = Inl e"
    by (auto simp: urlparse_def Let_def split: sum.splits prod.splits)
  then have "urlsplit_rest [] r = Inl e"
    using assms by (simp add: urlsplit_def str_find_absent)
  then have "e = ValueError"
    by (auto simp: urlsplit_rest_def Let_def split: if_splits prod.splits)
  then show ?thesis
    using Inl by (simp add: validate_root_def)
next
  case (Inr parsed)
  then have "scheme parsed = []"
    using urlparse_scheme [OF Inr] urlsplit_no_colon [OF assms] by auto
  then show ?thesis
    using Inr by (simp add: validate_root_def)
qed

lemma Connection_init_result:
  "Connection_init cc r c =
     (case validate_root r of
        Inl e \<Rightarrow> Inl e
      | Inr v \<Rightarrow> Inr \<lparr>PATH_SUFFIX = ''/'', DEFAULT_CLIENT_CLASS = cc, client = c, root = v\<rparr>)"
  by (simp add: Connection_init_def Connection_subclass_init_def)

lemma validate_root_foo: "validate_root ''foo'' = Inl AssertionError"
  by code_simp

text \<open>
  C7. A root whose parsed scheme is neither \<open>http\<close> nor \<open>https\<close> fails the
  assertion of \<open>_validate_root\<close>, and the constructor, which does nothing but
  store what \<open>_validate_root\<close> returns, fails with the same error; the error
  the specification calls \<open>InvalidRootError\<close> is this \<open>AssertionError\<close>. A
  connection is only ever constructed from a root whose scheme is one of the
  two. A root without a colon has no scheme and is always refused;
  \<open>Connection("foo")\<close> is.
\<close>

theorem invalid_root_rejected:
  "(urlparse r = Inr parsed \<and> scheme parsed \<notin> {''http'', ''https''} \<longrightarrow>
      validate_root r = Inl AssertionError \<and> Connection_init cc r c = Inl AssertionError)
   \<and> (Connection_init cc r c = Inr conn \<longrightarrow>
        (\<exists>parsed. urlparse r = Inr parsed \<and> scheme parsed \<in> {''http'', ''https''}))
   \<and> (validate_root r = Inl e \<longrightarrow> Connection_init cc r c = Inl e)
   \<and> (CHR '':'' \<notin> set r \<longrightarrow>
        Connection_init cc r c = Inl AssertionError \<or> Connection_init cc r c = Inl ValueError)
   \<and> Connection_init cc ''foo'' c = Inl AssertionError"
proof (intro conjI impI)
  assume "urlparse r = Inr parsed \<and> scheme parsed \<notin> {''http'', ''https''}"
  then show v: "validate_root r = Inl AssertionError"
    using validate_root_assert by blast
  then show "Connection_init cc r c = Inl AssertionError"
    by (simp add: Connection_init_result)
next
  assume "Connection_init cc r c = Inr conn"
  then obtain v where "validate_root r = Inr v"
    by (auto simp: Connection_init_result split: sum.splits)
  then show "\<exists>parsed. urlparse r = Inr parsed \<and> scheme parsed \<in> {''http'', ''https''}"
    by (rule validate_root_ok)
next
  assume "validate_root r = Inl e"
  then show "Connection_init cc r c = Inl e"
    by (simp add: Connection_init_result)
next
  assume "CHR '':'' \<notin> set r"
  then show "Connection_init cc r c = Inl AssertionError \<or> Connection_init cc r c = Inl ValueError"
    using validate_root_no_colon [of r] by (auto simp: Connection_init_result)
next
  show "Connection_init cc ''foo'' c = Inl AssertionError"
    by (simp add: Connection_init_result validate_root_foo)
qed

theorem invalid_root_rejected_witness:
  "urlparse ''ftp://foo.com/bar''
     = Inr \<lparr>scheme = ''ftp'', netloc = ''foo.com'', url_path = ''/bar'', params = [],
            query = [], fragment = []\<rparr>
   \<and> ''ftp'' \<notin> {''http'', ''https''}
   \<and> Connection_init (\<lambda>u. recording_client) ''ftp://foo.com/bar'' None = Inl AssertionError
   \<and> CHR '':'' \<notin> set ''foo''
   \<and> Connection_init (\<lambda>u. recording_client) ''foo'' None = Inl AssertionError
   \<and> validate_root ''http://[::1'' = Inl ValueError
   \<and> Connection_init (\<lambda>u. recording_client) ''http://[::1'' None = Inl ValueError"
proof -
  let ?P = "\<lparr>scheme = ''ftp'', netloc = ''foo.com'', url_path = ''/bar'', params = [],
            query = [], fragment = []\<rparr>"
  let ?cc = "\<lambda>u :: unit. recording_client"
  have u: "urlparse ''ftp://foo.com/bar'' = Inr ?P"
    by code_simp
  have n: "''ftp'' \<notin> {''http'', ''https''}"
    by simp
  have c: "CHR '':'' \<notin> set ''foo''"
    by simp
  have ve: "validate_root ''http://[::1'' = Inl ValueError"
    by code_simp
  have a: "Connection_init ?cc ''ftp://foo.com/bar'' None = Inl AssertionError"
    using invalid_root_rejected [where r = "''ftp://foo.com/bar''" and parsed = ?P and cc = ?cc
        and c = None and e = AssertionError
        and conn = "\<lparr>PATH_SUFFIX = [], DEFAULT_CLIENT_CLASS = ?cc, client = None, root = []\<rparr>"]
      u n
    by simp
  have b: "Connection_init ?cc ''foo'' None = Inl AssertionError"
    using invalid_root_rejected [where r = "''foo''" and parsed = ?P and cc = ?cc
        and c = None and e = AssertionError
        and conn = "\<lparr>PATH_SUFFIX = [], DEFAULT_CLIENT_CLASS = ?cc, client = None, root = []\<rparr>"]
    by simp
  have d: "Connection_init ?cc ''http://[::1'' None = Inl ValueError"
    using invalid_root_rejected [where r = "''http://[::1''" and parsed = ?P and cc = ?cc
        and c = None and e = ValueError
        and conn = "\<lparr>PATH_SUFFIX = [], DEFAULT_CLIENT_CLASS = ?cc, client = None, root = []\<rparr>"]
      ve
    by simp
  show ?thesis
    using u n a c b ve d by (intro conjI)
qed

section \<open>Validating a root twice\<close>









end
